theory Spec2Isabelle
  imports Complex_Main
begin

section \<open>JavaScript values used by the two components\<close>

text \<open>
  Template literals such as \<^verbatim>\<open>`export_${Date.now()}`\<close> render a number in decimal.
  \<open>Date.now()\<close> is the number of milliseconds since the epoch, a natural number.
\<close>

definition digit_char :: "nat \<Rightarrow> char" where
  "digit_char d = ''0123456789'' ! d"

fun string_of_nat :: "nat \<Rightarrow> string" where
  "string_of_nat n =
     (if n < 10 then [digit_char n]
      else string_of_nat (n div 10) @ [digit_char (n mod 10)])"

declare string_of_nat.simps [simp del]

text \<open>
  What \<open>JSON.parse\<close> returns. A number is its value (every finite double is a rational).
  An object lists its properties in the order of the text; when a key is repeated the
  last occurrence is the property's value, as in JavaScript. \<open>undefined\<close> (a missing
  property) is \<open>None\<close> of \<open>json option\<close>.
\<close>

datatype json =
    JNull
  | JBool bool
  | JNum rat
  | JStr string
  | JArr "json list"
  | JObj "(string \<times> json) list"

text \<open>Truthiness, as \<open>||\<close> and \<open>if\<close> test it.\<close>

fun truthy :: "json option \<Rightarrow> bool" where
  "truthy None = False"
| "truthy (Some JNull) = False"
| "truthy (Some (JBool b)) = b"
| "truthy (Some (JNum q)) = (q \<noteq> 0)"
| "truthy (Some (JStr s)) = (s \<noteq> [])"
| "truthy (Some (JArr xs)) = True"
| "truthy (Some (JObj kvs)) = True"

text \<open>\<open>a || d\<close> for a default \<open>d\<close> that is a value.\<close>

definition js_or :: "json option \<Rightarrow> json \<Rightarrow> json" where
  "js_or a d = (case a of None \<Rightarrow> d | Some v \<Rightarrow> if truthy (Some v) then v else d)"

text \<open>
  Reading one of the properties \<open>type\<close>, \<open>message\<close>, \<open>status\<close>, \<open>data\<close>, \<open>stats\<close> of a
  parsed value other than \<open>null\<close>: only an object can have them; on a boolean, a number,
  a string or an array the read gives \<open>undefined\<close>. (On \<open>null\<close> the read throws; the
  caller models that.)
\<close>

fun get_prop :: "json \<Rightarrow> string \<Rightarrow> json option" where
  "get_prop (JObj kvs) k = map_of (rev kvs) k"
| "get_prop _ k = None"

text \<open>
  The own enumerable properties that an object spread \<open>{...v}\<close> copies: the members of an
  object, the indexed elements of an array, the indexed characters of a string, nothing
  for a number or a boolean.
\<close>

fun spread_entries :: "json \<Rightarrow> (string \<times> json) list" where
  "spread_entries (JObj kvs) = kvs"
| "spread_entries (JArr xs) = zip (map string_of_nat [0..<length xs]) xs"
| "spread_entries (JStr s) = zip (map string_of_nat [0..<length s]) (map (\<lambda>c. JStr [c]) s)"
| "spread_entries _ = []"

text \<open>What a handler does besides changing state: toasts and console output.\<close>

datatype effect =
    ToastSuccess json
  | ToastError json
  | ToastPlain json
  | ConsoleLog string
  | ConsoleError string

section \<open>The export job tracker (components/DataExport.tsx)\<close>

datatype status = Pending | Processing | Completed | Failed

record ExportRequest =
  req_id :: string
  format :: string
  parameters :: "string list"
  req_timeRange :: string
  req_region :: string
  status :: status
  progress :: nat
  createdAt :: nat
  completedAt :: "nat option"
  downloadUrl :: "string option"
  fileSize :: "nat option"

text \<open>
  The component's state: its \<open>useState\<close> cells, and \<open>suspended\<close>, the calls of
  \<open>simulateExport\<close> that wait at their \<open>await\<close>: the request id each was given and the
  value of its loop variable \<open>progress\<close>.
\<close>

record tracker =
  isOpen :: bool
  selectedFormat :: string
  selectedParameters :: "string list"
  timeRange :: string
  region :: string
  exportRequests :: "ExportRequest list"
  isExporting :: bool
  suspended :: "(string \<times> nat) list"

definition DataExport_init :: tracker where
  "DataExport_init =
     \<lparr> isOpen = False, selectedFormat = ''csv'',
       selectedParameters = [''temperature'', ''salinity''],
       timeRange = ''7d'', region = ''global'',
       exportRequests = [], isExporting = False, suspended = [] \<rparr>"

definition exportFormats :: "string list" where
  "exportFormats = [''csv'', ''netcdf'', ''json'', ''excel'']"

definition parameter_ids :: "string list" where
  "parameter_ids = [''temperature'', ''salinity'', ''pressure'', ''oxygen'', ''ph'', ''chlorophyll'']"

definition timeRanges :: "string list" where
  "timeRanges = [''24h'', ''7d'', ''30d'', ''90d'', ''1y'', ''custom'']"

definition regions :: "string list" where
  "regions = [''global'', ''indian'', ''pacific'', ''atlantic'', ''southern'']"

definition handleParameterToggle :: "string \<Rightarrow> tracker \<Rightarrow> tracker" where
  "handleParameterToggle parameterId s =
     s\<lparr>selectedParameters :=
         (if parameterId \<in> set (selectedParameters s)
          then filter (\<lambda>p. p \<noteq> parameterId) (selectedParameters s)
          else selectedParameters s @ [parameterId])\<rparr>"

text \<open>
  \<open>handleExport\<close>. \<open>t_id\<close> is what \<open>Date.now()\<close> returns for the id, \<open>t_created\<close> what
  \<open>new Date()\<close> gives for \<open>createdAt\<close>. With no parameter selected it shows an error
  toast and returns. Otherwise it sets \<open>isExporting\<close>, puts the new request in front of
  the list, closes the modal and calls \<open>simulateExport\<close>, which runs to its first
  \<open>await\<close> with \<open>progress = 0\<close>.
\<close>

definition handleExport :: "nat \<Rightarrow> nat \<Rightarrow> tracker \<Rightarrow> effect list \<times> tracker" where
  "handleExport t_id t_created s =
     (if length (selectedParameters s) = 0
      then ([ToastError (JStr ''Please select at least one parameter'')], s)
      else
        let exportRequest =
              \<lparr> req_id = ''export_'' @ string_of_nat t_id,
                format = selectedFormat s,
                parameters = selectedParameters s,
                req_timeRange = timeRange s,
                req_region = region s,
                status = Pending,
                progress = 0,
                createdAt = t_created,
                completedAt = None,
                downloadUrl = None,
                fileSize = None \<rparr>
        in ([ToastSuccess (JStr ''Export started'')],
            s\<lparr> isExporting := True,
               exportRequests := exportRequest # exportRequests s,
               isOpen := False,
               suspended := suspended s @ [(req_id exportRequest, 0)] \<rparr>))"

text \<open>The two updaters that \<open>simulateExport\<close> passes to \<open>setExportRequests\<close>.\<close>

definition setProgress :: "string \<Rightarrow> nat \<Rightarrow> ExportRequest list \<Rightarrow> ExportRequest list" where
  "setProgress requestId p prev =
     map (\<lambda>req. if req_id req = requestId
                 then req\<lparr>progress := p, status := Processing\<rparr>
                 else req) prev"

text \<open>
  \<open>rnd\<close> is \<open>Math.floor(Math.random() * 50000000)\<close>, \<open>now\<close> the \<open>new Date()\<close> of
  \<open>completedAt\<close>. The code evaluates both inside the callback, once for each request
  whose id matches; the one pair of readings given here is exact when at most one
  request matches.
\<close>

definition markCompleted :: "string \<Rightarrow> nat \<Rightarrow> nat \<Rightarrow> ExportRequest list \<Rightarrow> ExportRequest list" where
  "markCompleted requestId now rnd prev =
     map (\<lambda>req. if req_id req = requestId
                 then req\<lparr> status := Completed,
                           progress := 100,
                           completedAt := Some now,
                           downloadUrl := Some ''#'',
                           fileSize := Some (rnd + 1000000) \<rparr>
                 else req) prev"

text \<open>
  One resumption of a suspended \<open>simulateExport\<close> call, from the timer firing to the next
  \<open>await\<close> or to the end of the function. The loop body writes the loop variable into
  the request and adds 10. While the variable stays at most 100 the call suspends again;
  after the iteration with 100 the loop ends and, in the same resumption, the request is
  marked completed and the call is over.
\<close>

definition drop_nth :: "nat \<Rightarrow> 'a list \<Rightarrow> 'a list" where
  "drop_nth i xs = take i xs @ drop (Suc i) xs"

definition resume :: "nat \<Rightarrow> nat \<Rightarrow> nat \<Rightarrow> tracker \<Rightarrow> (effect list \<times> tracker) option" where
  "resume i now rnd s =
     (if i < length (suspended s) then
        (case suspended s ! i of (requestId, p) \<Rightarrow>
           let s1 = s\<lparr>exportRequests := setProgress requestId p (exportRequests s)\<rparr> in
           if p + 10 \<le> 100
           then Some ([], s1\<lparr>suspended := (suspended s)[i := (requestId, p + 10)]\<rparr>)
           else Some ([ToastSuccess (JStr ''Export completed!'')],
                      s1\<lparr> exportRequests := markCompleted requestId now rnd (exportRequests s1),
                          suspended := drop_nth i (suspended s) \<rparr>))
      else None)"

text \<open>
  What can happen to the component. The controls of the modal exist only while it is
  open, and the Start Export button is disabled while \<open>isExporting\<close> holds or no parameter
  is selected; an event that cannot happen in a state has no successor.
\<close>

datatype tracker_event =
    OpenModal
  | CloseModal
  | SelectFormat string
  | ParameterToggle string
  | SelectTimeRange string
  | SelectRegion string
  | StartExport nat nat
  | TimerFired nat nat nat

fun step :: "tracker_event \<Rightarrow> tracker \<Rightarrow> tracker option" where
  "step OpenModal s = Some (s\<lparr>isOpen := True\<rparr>)"
| "step CloseModal s = (if isOpen s then Some (s\<lparr>isOpen := False\<rparr>) else None)"
| "step (SelectFormat f) s =
     (if isOpen s \<and> f \<in> set exportFormats then Some (s\<lparr>selectedFormat := f\<rparr>) else None)"
| "step (ParameterToggle p) s =
     (if isOpen s \<and> p \<in> set parameter_ids then Some (handleParameterToggle p s) else None)"
| "step (SelectTimeRange t) s =
     (if isOpen s \<and> t \<in> set timeRanges then Some (s\<lparr>timeRange := t\<rparr>) else None)"
| "step (SelectRegion r) s =
     (if isOpen s \<and> r \<in> set regions then Some (s\<lparr>region := r\<rparr>) else None)"
| "step (StartExport t_id t_created) s =
     (if isOpen s \<and> \<not> (isExporting s \<or> length (selectedParameters s) = 0)
      then Some (snd (handleExport t_id t_created s)) else None)"
| "step (TimerFired i now rnd) s = map_option snd (resume i now rnd s)"

fun run :: "tracker_event list \<Rightarrow> tracker \<Rightarrow> tracker option" where
  "run [] s = Some s"
| "run (e # es) s = (case step e s of None \<Rightarrow> None | Some s' \<Rightarrow> run es s')"

text \<open>The number of timer firings in a sequence of events.\<close>

definition is_tick :: "tracker_event \<Rightarrow> bool" where
  "is_tick e = (case e of TimerFired i now rnd \<Rightarrow> True | _ \<Rightarrow> False)"

definition ticks :: "tracker_event list \<Rightarrow> nat" where
  "ticks es = length (filter is_tick es)"


text \<open>
  The shapes a state of the component has, used as the invariant of \<open>run\<close>: no request yet
  (\<open>idle\<close>), or one request whose \<open>simulateExport\<close> call has been resumed \<open>n\<close> times
  (\<open>job_at n\<close>).
\<close>

definition idle :: "tracker \<Rightarrow> bool" where
  "idle s \<longleftrightarrow> exportRequests s = [] \<and> suspended s = [] \<and> \<not> isExporting s"

definition job_at :: "nat \<Rightarrow> tracker \<Rightarrow> bool" where
  "job_at n s \<longleftrightarrow>
     (\<exists>r. exportRequests s = [r] \<and> isExporting s \<and>
        (if n \<le> 10
         then suspended s = [(req_id r, 10 * n)] \<and>
              status r = (if n = 0 then Pending else Processing) \<and>
              progress r = 10 * (n - 1) \<and>
              completedAt r = None \<and> downloadUrl r = None \<and> fileSize r = None
         else n = 11 \<and> suspended s = [] \<and>
              status r = Completed \<and> progress r = 100 \<and>
              completedAt r \<noteq> None \<and> downloadUrl r = Some ''#'' \<and> fileSize r \<noteq> None))"

definition shape :: "nat \<Rightarrow> tracker \<Rightarrow> bool" where
  "shape n s \<longleftrightarrow> (idle s \<and> n = 0) \<or> job_at n s"

section \<open>The live update feed client (components/RealTimeUpdates.tsx)\<close>

record UpdateData =
  upd_id :: string
  upd_type :: json
  message :: json
  timestamp :: nat
  upd_status :: json
  upd_data :: "json option"

text \<open>A value of the \<open>stats\<close> object: the initial \<open>lastSync\<close> is a \<open>Date\<close>, a merged value is JSON.\<close>

datatype stat_value = DateVal nat | JsonVal json

text \<open>The browser's \<open>WebSocket.readyState\<close>.\<close>

datatype readyState = CONNECTING | OPEN | CLOSING | CLOSED

text \<open>
  The component's state (\<open>isConnected\<close>, \<open>updates\<close>, \<open>lastUpdate\<close>, \<open>stats\<close>, \<open>mounted\<close>), its
  two refs, and the browser objects the component has created: \<open>sockets\<close> holds the ready
  state of every \<open>WebSocket\<close> it constructed, in the order of construction (a socket is
  named by its position), and \<open>timers\<close> one flag per \<open>setTimeout\<close> call, true while the
  timeout is pending (a timeout is named by its position; every such timeout runs
  \<open>connectWebSocket\<close>). \<open>unmounted\<close> records that the effect's cleanup has run; the handlers
  still set the state cells afterwards, which React then no longer shows.
\<close>

record feed =
  isConnected :: bool
  updates :: "UpdateData list"
  lastUpdate :: nat
  stats :: "string \<rightharpoonup> stat_value"
  mounted :: bool
  unmounted :: bool
  wsRef :: "nat option"
  reconnectTimeoutRef :: "nat option"
  sockets :: "readyState list"
  timers :: "bool list"

definition initial_stats :: "nat \<Rightarrow> (string \<rightharpoonup> stat_value)" where
  "initial_stats t_sync =
     [''totalFloats'' \<mapsto> JsonVal (JNum 3847),
      ''activeFloats'' \<mapsto> JsonVal (JNum 3621),
      ''dataPoints'' \<mapsto> JsonVal (JNum 1247832),
      ''lastSync'' \<mapsto> DateVal t_sync]"

text \<open>
  The state at the first render; \<open>t_last\<close> and \<open>t_sync\<close> are the two \<open>new Date()\<close> of the
  initial \<open>lastUpdate\<close> and \<open>stats.lastSync\<close>.
\<close>

definition RealTimeUpdates_init :: "nat \<Rightarrow> nat \<Rightarrow> feed" where
  "RealTimeUpdates_init t_last t_sync =
     \<lparr> isConnected = True, updates = [], lastUpdate = t_last, stats = initial_stats t_sync,
       mounted = False, unmounted = False, wsRef = None, reconnectTimeoutRef = None,
       sockets = [], timers = [] \<rparr>"

text \<open>
  \<open>connectWebSocket\<close>. \<open>throws\<close> says whether the constructor \<open>new WebSocket(...)\<close> throws;
  then the \<open>catch\<close> logs and clears \<open>isConnected\<close>. Otherwise the new socket gets its four
  handlers and becomes \<open>wsRef.current\<close>. Nothing is tested before the construction.
\<close>

definition connectWebSocket :: "bool \<Rightarrow> feed \<Rightarrow> effect list \<times> feed" where
  "connectWebSocket throws s =
     (if throws
      then ([ConsoleError ''Error connecting to WebSocket:''], s\<lparr>isConnected := False\<rparr>)
      else ([], s\<lparr>sockets := sockets s @ [CONNECTING], wsRef := Some (length (sockets s))\<rparr>))"

definition ws_onopen :: "feed \<Rightarrow> effect list \<times> feed" where
  "ws_onopen s =
     ([ToastSuccess (JStr ''Connected to real-time updates''), ConsoleLog ''WebSocket connected''],
      s\<lparr>isConnected := True\<rparr>)"

text \<open>\<open>ws.onclose\<close> arms a timeout of 5000 ms that calls \<open>connectWebSocket\<close> and stores its handle.\<close>

definition ws_onclose :: "feed \<Rightarrow> effect list \<times> feed" where
  "ws_onclose s =
     ([ToastError (JStr ''Disconnected from real-time updates''), ConsoleLog ''WebSocket disconnected''],
      s\<lparr> isConnected := False,
         timers := timers s @ [True],
         reconnectTimeoutRef := Some (length (timers s)) \<rparr>)"

definition ws_onerror :: "feed \<Rightarrow> effect list \<times> feed" where
  "ws_onerror s = ([ConsoleError ''WebSocket error:''], s\<lparr>isConnected := False\<rparr>)"

datatype js_error = TypeError

text \<open>
  \<open>handleRealtimeUpdate\<close>. The three clock readings are those of \<open>Date.now()\<close> in the id,
  of \<open>new Date()\<close> in \<open>timestamp\<close> and of \<open>new Date()\<close> in \<open>setLastUpdate\<close>. Building
  \<open>update\<close> reads \<open>data.type\<close> first, which throws a \<open>TypeError\<close> when \<open>data\<close> is \<open>null\<close>,
  before any state is set.
\<close>

definition merge_stats :: "(string \<rightharpoonup> stat_value) \<Rightarrow> json \<Rightarrow> (string \<rightharpoonup> stat_value)" where
  "merge_stats prev v = prev ++ map_of (rev (map (\<lambda>(k, x). (k, JsonVal x)) (spread_entries v)))"

definition status_toast :: "UpdateData \<Rightarrow> effect list" where
  "status_toast update =
     (if upd_status update = JStr ''success'' then [ToastSuccess (message update)]
      else if upd_status update = JStr ''warning'' then [ToastPlain (message update)]
      else if upd_status update = JStr ''error'' then [ToastError (message update)]
      else [])"

definition handleRealtimeUpdate ::
    "nat \<Rightarrow> nat \<Rightarrow> nat \<Rightarrow> json \<Rightarrow> feed \<Rightarrow> js_error + effect list \<times> feed" where
  "handleRealtimeUpdate t_id t_stamp t_last data s =
     (if data = JNull then Inl TypeError
      else
        let update =
              \<lparr> upd_id = ''update_'' @ string_of_nat t_id,
                upd_type = js_or (get_prop data ''type'') (JStr ''data_sync''),
                message = js_or (get_prop data ''message'') (JStr ''Data updated''),
                timestamp = t_stamp,
                upd_status = js_or (get_prop data ''status'') (JStr ''success''),
                upd_data = get_prop data ''data'' \<rparr>;
            s1 = s\<lparr>updates := take 50 (update # updates s), lastUpdate := t_last\<rparr>;
            s2 = (case get_prop data ''stats'' of
                    None \<Rightarrow> s1
                  | Some v \<Rightarrow> if truthy (Some v) then s1\<lparr>stats := merge_stats (stats s1) v\<rparr> else s1)
        in Inr (status_toast update, s2))"

text \<open>
  \<open>ws.onmessage\<close>. \<open>parse\<close> is \<open>JSON.parse\<close>, \<open>None\<close> where it throws a \<open>SyntaxError\<close>. The
  \<open>try\<close> block holds both the parse and the call of \<open>handleRealtimeUpdate\<close>, so the
  \<open>catch\<close> takes an exception of either.
\<close>

definition ws_onmessage ::
    "(string \<Rightarrow> json option) \<Rightarrow> nat \<Rightarrow> nat \<Rightarrow> nat \<Rightarrow> string \<Rightarrow> feed \<Rightarrow> effect list \<times> feed" where
  "ws_onmessage parse t_id t_stamp t_last raw s =
     (case parse raw of
        None \<Rightarrow> ([ConsoleError ''Error parsing WebSocket message:''], s)
      | Some data \<Rightarrow>
          (case handleRealtimeUpdate t_id t_stamp t_last data s of
             Inl e \<Rightarrow> ([ConsoleError ''Error parsing WebSocket message:''], s)
           | Inr r \<Rightarrow> r))"

text \<open>
  The browser's \<open>close()\<close> on a socket: a connecting or open socket starts closing (its
  close event comes later, as an event of its own); on a closing or closed one nothing
  happens. \<open>clearTimeout\<close> makes a pending timeout not pending.
\<close>

definition ws_close :: "nat \<Rightarrow> readyState list \<Rightarrow> readyState list" where
  "ws_close i socks =
     (if i < length socks \<and> (socks ! i = CONNECTING \<or> socks ! i = OPEN)
      then socks[i := CLOSING] else socks)"

definition clearTimeout :: "nat \<Rightarrow> bool list \<Rightarrow> bool list" where
  "clearTimeout t ts = ts[t := False]"

text \<open>The cleanup of the mount effect: close \<open>wsRef.current\<close>, clear \<open>reconnectTimeoutRef.current\<close>.\<close>

definition cleanup :: "feed \<Rightarrow> feed" where
  "cleanup s =
     (let s1 = (case wsRef s of None \<Rightarrow> s | Some i \<Rightarrow> s\<lparr>sockets := ws_close i (sockets s)\<rparr>);
          s2 = (case reconnectTimeoutRef s1 of None \<Rightarrow> s1
                | Some t \<Rightarrow> s1\<lparr>timers := clearTimeout t (timers s1)\<rparr>)
      in s2\<lparr>unmounted := True\<rparr>)"

text \<open>
  What can happen to the component: it mounts (the effect calls \<open>connectWebSocket\<close>, the
  second effect sets \<open>mounted\<close>), the Refresh button is clicked, a socket the component
  created fires \<open>open\<close>, \<open>message\<close>, \<open>error\<close> or \<open>close\<close>, a pending timeout fires, the
  component unmounts. Sockets and timeouts live in the browser, so their events also
  come after the unmount.
\<close>

datatype feed_event =
    Mount bool
  | Refresh bool
  | WsOpen nat
  | WsMessage nat nat nat nat string
  | WsError nat
  | WsClose nat
  | TimeoutFired nat bool
  | Unmount

fun feed_step :: "(string \<Rightarrow> json option) \<Rightarrow> feed_event \<Rightarrow> feed \<Rightarrow> feed option" where
  "feed_step parse (Mount throws) s =
     (if \<not> mounted s \<and> \<not> unmounted s
      then Some ((snd (connectWebSocket throws s))\<lparr>mounted := True\<rparr>) else None)"
| "feed_step parse (Refresh throws) s =
     (if mounted s \<and> \<not> unmounted s then Some (snd (connectWebSocket throws s)) else None)"
| "feed_step parse (WsOpen i) s =
     (if i < length (sockets s) \<and> sockets s ! i = CONNECTING
      then Some (snd (ws_onopen (s\<lparr>sockets := (sockets s)[i := OPEN]\<rparr>))) else None)"
| "feed_step parse (WsMessage i t_id t_stamp t_last raw) s =
     (if i < length (sockets s) \<and> sockets s ! i = OPEN
      then Some (snd (ws_onmessage parse t_id t_stamp t_last raw s)) else None)"
| "feed_step parse (WsError i) s =
     (if i < length (sockets s) \<and> sockets s ! i \<noteq> CLOSED
      then Some (snd (ws_onerror s)) else None)"
| "feed_step parse (WsClose i) s =
     (if i < length (sockets s) \<and> sockets s ! i \<noteq> CLOSED
      then Some (snd (ws_onclose (s\<lparr>sockets := (sockets s)[i := CLOSED]\<rparr>))) else None)"
| "feed_step parse (TimeoutFired t throws) s =
     (if t < length (timers s) \<and> timers s ! t
      then Some (snd (connectWebSocket throws (s\<lparr>timers := (timers s)[t := False]\<rparr>))) else None)"
| "feed_step parse Unmount s =
     (if mounted s \<and> \<not> unmounted s then Some (cleanup s) else None)"

fun feed_run :: "(string \<Rightarrow> json option) \<Rightarrow> feed_event list \<Rightarrow> feed \<Rightarrow> feed option" where
  "feed_run parse [] s = Some s"
| "feed_run parse (e # es) s =
     (case feed_step parse e s of None \<Rightarrow> None | Some s' \<Rightarrow> feed_run parse es s')"

section \<open>The export job tracker: one request, eleven resumptions\<close>

lemma setProgress_single:
  "setProgress (req_id r) p [r] = [r\<lparr>progress := p, status := Processing\<rparr>]"
  by (simp add: setProgress_def)

text \<open>A resumption is possible in the state \<open>job_at n\<close> while \<open>n \<le> 10\<close>, and leads to \<open>job_at (n + 1)\<close>.\<close>

lemma tick_job_at:
  assumes "job_at n s" and "n \<le> 10"
  shows "\<exists>s'. step (TimerFired 0 now rnd) s = Some s' \<and> job_at (Suc n) s'"
proof -
  from assms obtain r where r: "exportRequests s = [r]" "isExporting s"
    "suspended s = [(req_id r, 10 * n)]"
    "completedAt r = None" "downloadUrl r = None" "fileSize r = None"
    by (auto simp: job_at_def)
  show ?thesis
  proof (cases "n = 10")
    case True
    with r show ?thesis
      by (simp add: resume_def job_at_def setProgress_single markCompleted_def drop_nth_def)
  next
    case False
    with assms(2) have "n \<le> 9" by simp
    with r show ?thesis
      by (simp add: resume_def job_at_def setProgress_single)
  qed
qed

lemma tick_only_first:
  assumes "shape n s" and "step (TimerFired i now rnd) s = Some s'"
  shows "i = 0 \<and> n \<le> 10 \<and> job_at n s"
proof -
  from assms(2) have i: "i < length (suspended s)"
    by (auto simp: resume_def split: if_splits)
  with assms(1) show ?thesis
    by (auto simp: shape_def idle_def job_at_def split: if_splits)
qed

lemma step_shape:
  assumes "shape n s" and "step e s = Some s'"
  shows "shape (if is_tick e then Suc n else n) s'"
proof (cases e)
  case (TimerFired i now rnd)
  with assms tick_only_first [of n s i now rnd s']
  have "i = 0" "n \<le> 10" "job_at n s" by simp_all
  with tick_job_at [of n s now rnd] assms(2) TimerFired show ?thesis
    by (auto simp: shape_def is_tick_def)
next
  case (StartExport t_id t_created)
  with assms have "idle s \<and> n = 0"
    by (auto simp: shape_def job_at_def split: if_splits)
  with assms(2) StartExport show ?thesis
    by (auto simp: shape_def job_at_def idle_def handleExport_def Let_def is_tick_def split: if_splits)
qed (use assms in \<open>auto simp: shape_def job_at_def idle_def is_tick_def handleParameterToggle_def split: if_splits\<close>)

lemma ticks_Cons: "ticks (e # es) = (if is_tick e then Suc (ticks es) else ticks es)"
  by (simp add: ticks_def)

lemma run_shape:
  "shape n s \<Longrightarrow> run es s = Some s' \<Longrightarrow> shape (n + ticks es) s'"
proof (induction es arbitrary: n s)
  case Nil
  then show ?case by (simp add: ticks_def)
next
  case (Cons e es)
  from Cons.prems(2) obtain s1 where s1: "step e s = Some s1" "run es s1 = Some s'"
    by (auto split: option.splits)
  from step_shape [OF Cons.prems(1) s1(1)]
  have "shape ((if is_tick e then Suc n else n) + ticks es) s'"
    by (rule Cons.IH) (rule s1(2))
  then show ?case by (cases "is_tick e") (simp_all add: ticks_Cons)
qed

lemma init_shape: "shape 0 DataExport_init"
  by (simp add: shape_def idle_def DataExport_init_def)

lemma reachable_shape: "run es DataExport_init = Some s \<Longrightarrow> shape (ticks es) s"
  using run_shape [OF init_shape] by fastforce

text \<open>Only \<open>handleExport\<close> writes a request id.\<close>

lemma step_ids:
  "step e s = Some s' \<Longrightarrow> (\<forall>a b. e \<noteq> StartExport a b) \<Longrightarrow>
     map req_id (exportRequests s') = map req_id (exportRequests s)"
  by (cases e)
    (auto simp: handleParameterToggle_def resume_def setProgress_def markCompleted_def
        Let_def comp_def split: if_splits prod.splits)

lemma run_replicate_ids:
  "run (replicate k (TimerFired i now rnd)) s = Some s' \<Longrightarrow>
     map req_id (exportRequests s') = map req_id (exportRequests s)"
proof (induction k arbitrary: s)
  case 0
  then show ?case by simp
next
  case (Suc k)
  from Suc.prems obtain s1 where s1: "step (TimerFired i now rnd) s = Some s1"
    "run (replicate k (TimerFired i now rnd)) s1 = Some s'"
    by (auto simp del: step.simps split: option.splits)
  from step_ids [OF s1(1)] Suc.IH [OF s1(2)] show ?case by simp
qed

text \<open>No event clears \<open>isExporting\<close>, and while it is set no event adds a request.\<close>

lemma step_latch:
  "isExporting s \<Longrightarrow> step e s = Some s' \<Longrightarrow>
     isExporting s' \<and> length (exportRequests s') = length (exportRequests s)"
  by (cases e)
    (auto simp: handleParameterToggle_def resume_def setProgress_def markCompleted_def
        Let_def split: if_splits prod.splits)

lemma run_latch:
  "isExporting s \<Longrightarrow> run es s = Some s' \<Longrightarrow>
     isExporting s' \<and> length (exportRequests s') = length (exportRequests s)"
proof (induction es arbitrary: s)
  case Nil
  then show ?case by simp
next
  case (Cons e es)
  from Cons.prems(2) obtain s1 where s1: "step e s = Some s1" "run es s1 = Some s'"
    by (auto split: option.splits)
  from step_latch [OF Cons.prems(1) s1(1)] Cons.IH [OF _ s1(2)]
  show ?case by simp
qed

lemma run_Cons_Some: "step e s = Some s1 \<Longrightarrow> run (e # es) s = run es s1"
  by simp

text \<open>From \<open>job_at n\<close> the remaining \<open>11 - n\<close> timer firings can all happen and end in \<open>job_at 11\<close>.\<close>

lemma run_ticks_to_completed:
  "job_at n s \<Longrightarrow> n \<le> 11 \<Longrightarrow>
     \<exists>s'. run (replicate (11 - n) (TimerFired 0 now rnd)) s = Some s' \<and> job_at 11 s'"
proof (induction "11 - n" arbitrary: n s)
  case 0
  then have "n = 11" by simp
  with "0.prems" show ?case by simp
next
  case (Suc k)
  then have n: "n \<le> 10" and k: "k = 11 - Suc n" by simp_all
  from tick_job_at [OF Suc.prems(1) n]
  obtain s1 where s1: "step (TimerFired 0 now rnd) s = Some s1" "job_at (Suc n) s1"
    by blast
  from Suc.hyps(1) [OF k s1(2)] n
  obtain s' where "run (replicate (11 - Suc n) (TimerFired 0 now rnd)) s1 = Some s'" "job_at 11 s'"
    by auto
  moreover from n have "11 - n = Suc (11 - Suc n)" by simp
  then have "run (replicate (11 - n) (TimerFired 0 now rnd)) s =
      run (replicate (11 - Suc n) (TimerFired 0 now rnd)) s1"
    using s1(1) by (simp only: replicate_Suc run_Cons_Some)
  ultimately show ?case by simp
qed





section \<open>Properties of the export job tracker\<close>

text \<open>
  Claim C1. In every state the component reaches through its controls and timers, each
  request of the job list has progress 100 exactly when its status is Completed, and a
  \<open>completedAt\<close> exactly when its status is Completed. The states of \<open>run\<close> are the states
  between two turns of the event loop, the ones that are rendered. The last resumption
  of \<open>simulateExport\<close> applies the updater that writes progress 100 with status
  processing and the updater that marks the request completed one after the other with
  no \<open>await\<close> in between; React 18 (the project runs on Next.js 14) applies both in one
  render, so what lies between the two updaters is inside one step and is never shown.
\<close>

theorem progress_100_iff_completed:
  assumes "run es DataExport_init = Some s" and "r \<in> set (exportRequests s)"
  shows "(progress r = 100 \<longleftrightarrow> status r = Completed) \<and>
         (completedAt r \<noteq> None \<longleftrightarrow> status r = Completed)"
proof -
  from reachable_shape [OF assms(1)] assms(2) have "job_at (ticks es) s"
    by (auto simp: shape_def idle_def)
  with assms(2) show ?thesis
    by (auto simp: job_at_def split: if_splits)
qed

theorem progress_100_iff_completed_witness:
  "\<exists>s r. run [OpenModal, StartExport 7 8,
              TimerFired 0 9 3, TimerFired 0 9 3, TimerFired 0 9 3, TimerFired 0 9 3,
              TimerFired 0 9 3, TimerFired 0 9 3, TimerFired 0 9 3, TimerFired 0 9 3,
              TimerFired 0 9 3, TimerFired 0 9 3, TimerFired 0 9 3] DataExport_init = Some s \<and>
         r \<in> set (exportRequests s) \<and> progress r = 100 \<and> status r = Completed \<and>
         completedAt r \<noteq> None"
proof -
  have "\<exists>s. run [OpenModal, StartExport 7 8,
              TimerFired 0 9 3, TimerFired 0 9 3, TimerFired 0 9 3, TimerFired 0 9 3,
              TimerFired 0 9 3, TimerFired 0 9 3, TimerFired 0 9 3, TimerFired 0 9 3,
              TimerFired 0 9 3, TimerFired 0 9 3, TimerFired 0 9 3] DataExport_init = Some s \<and>
         (\<exists>r. r \<in> set (exportRequests s) \<and> progress r = 100)"
    by (simp add: DataExport_init_def handleExport_def resume_def setProgress_def
        markCompleted_def drop_nth_def)
  then obtain s r where run: "run [OpenModal, StartExport 7 8,
              TimerFired 0 9 3, TimerFired 0 9 3, TimerFired 0 9 3, TimerFired 0 9 3,
              TimerFired 0 9 3, TimerFired 0 9 3, TimerFired 0 9 3, TimerFired 0 9 3,
              TimerFired 0 9 3, TimerFired 0 9 3, TimerFired 0 9 3] DataExport_init = Some s"
    and r: "r \<in> set (exportRequests s)" "progress r = 100"
    by blast
  from progress_100_iff_completed [OF run r(1)] r(2)
  have "status r = Completed" "completedAt r \<noteq> None" by simp_all
  with run r show ?thesis by blast
qed

text \<open>
  Claim C6. A request created by an accepted Start Export is completed after exactly
  eleven timer firings, never more: in a reachable state with \<open>n = ticks es\<close> firings so
  far, \<open>n \<le> 11\<close>; the request is Pending with progress 0 for \<open>n = 0\<close>, Processing with
  progress \<open>10 * (n - 1)\<close> for \<open>1 \<le> n \<le> 10\<close> (the first firing starts it at 0, each
  further one adds 10), and Completed with progress 100 for \<open>n = 11\<close>. Progress is 100
  exactly when the request is Completed, and then \<open>completedAt\<close>, \<open>downloadUrl\<close> and
  \<open>fileSize\<close> are set. The remaining \<open>11 - n\<close> firings are always possible and lead to
  the completed request with the same id. The code has no path to Failed.
\<close>

theorem export_completes_in_11_ticks:
  assumes "run es DataExport_init = Some s" and "r \<in> set (exportRequests s)"
  shows "ticks es \<le> 11 \<and>
    status r = (if ticks es = 0 then Pending else if ticks es \<le> 10 then Processing else Completed) \<and>
    progress r = (if ticks es = 0 then 0 else 10 * (ticks es - 1)) \<and>
    (progress r = 100 \<longleftrightarrow> status r = Completed) \<and>
    (status r = Completed \<longrightarrow>
       completedAt r \<noteq> None \<and> downloadUrl r = Some ''#'' \<and> fileSize r \<noteq> None) \<and>
    (\<exists>s' r'. run (replicate (11 - ticks es) (TimerFired 0 now rnd)) s = Some s' \<and>
       exportRequests s' = [r'] \<and> req_id r' = req_id r \<and>
       status r' = Completed \<and> progress r' = 100 \<and>
       completedAt r' \<noteq> None \<and> downloadUrl r' = Some ''#'' \<and> fileSize r' \<noteq> None)"
proof -
  from reachable_shape [OF assms(1)] assms(2) have j: "job_at (ticks es) s"
    by (auto simp: shape_def idle_def)
  then have le: "ticks es \<le> 11"
    by (auto simp: job_at_def split: if_splits)
  from j assms(2) have one: "exportRequests s = [r]"
    by (auto simp: job_at_def)
  from run_ticks_to_completed [OF j le, of now rnd]
  obtain s' where s': "run (replicate (11 - ticks es) (TimerFired 0 now rnd)) s = Some s'"
    "job_at 11 s'" by blast
  from s'(2) obtain r' where r': "exportRequests s' = [r']" "status r' = Completed"
    "progress r' = 100" "completedAt r' \<noteq> None" "downloadUrl r' = Some ''#''"
    "fileSize r' \<noteq> None"
    by (auto simp: job_at_def)
  from run_replicate_ids [OF s'(1)] one r'(1) have "req_id r' = req_id r" by simp
  with s'(1) r' have ex: "\<exists>s' r'. run (replicate (11 - ticks es) (TimerFired 0 now rnd)) s = Some s' \<and>
       exportRequests s' = [r'] \<and> req_id r' = req_id r \<and>
       status r' = Completed \<and> progress r' = 100 \<and>
       completedAt r' \<noteq> None \<and> downloadUrl r' = Some ''#'' \<and> fileSize r' \<noteq> None"
    by blast
  from j one have "status r = (if ticks es = 0 then Pending else if ticks es \<le> 10 then Processing else Completed)"
    and "progress r = (if ticks es = 0 then 0 else 10 * (ticks es - 1))"
    and "progress r = 100 \<longleftrightarrow> status r = Completed"
    and "status r = Completed \<longrightarrow>
       completedAt r \<noteq> None \<and> downloadUrl r = Some ''#'' \<and> fileSize r \<noteq> None"
    by (auto simp: job_at_def split: if_splits)
  with le ex show ?thesis by blast
qed

theorem export_completes_in_11_ticks_witness:
  "\<exists>s r. run [OpenModal, StartExport 7 8, TimerFired 0 9 3, TimerFired 0 9 3, TimerFired 0 9 3]
            DataExport_init = Some s \<and>
     r \<in> set (exportRequests s) \<and> status r = Processing \<and> progress r = 20 \<and>
     (\<exists>s' r'. run (replicate 8 (TimerFired 0 4 5)) s = Some s' \<and> exportRequests s' = [r'] \<and>
        req_id r' = req_id r \<and> status r' = Completed \<and> progress r' = 100)"
proof -
  have t: "ticks [OpenModal, StartExport 7 8, TimerFired 0 9 3, TimerFired 0 9 3, TimerFired 0 9 3] = 3"
    by (simp add: ticks_def is_tick_def)
  have "\<exists>s. run [OpenModal, StartExport 7 8, TimerFired 0 9 3, TimerFired 0 9 3, TimerFired 0 9 3]
            DataExport_init = Some s \<and> (\<exists>r. r \<in> set (exportRequests s))"
    by (simp add: DataExport_init_def handleExport_def resume_def setProgress_def)
  then obtain s r where run: "run [OpenModal, StartExport 7 8, TimerFired 0 9 3, TimerFired 0 9 3,
      TimerFired 0 9 3] DataExport_init = Some s" and r: "r \<in> set (exportRequests s)"
    by blast
  from export_completes_in_11_ticks [OF run r, of 4 5] t
  have "status r = Processing" "progress r = 20"
    "\<exists>s' r'. run (replicate 8 (TimerFired 0 4 5)) s = Some s' \<and> exportRequests s' = [r'] \<and>
        req_id r' = req_id r \<and> status r' = Completed \<and> progress r' = 100"
    by auto
  with run r show ?thesis by blast
qed

text \<open>
  Claim C10. Once a click on Start Export has been accepted, \<open>isExporting\<close> stays true in
  every later state whatever happens, the Start Export button stays disabled (a click on
  it has no successor state), and the job list keeps the length it had right after that
  click: no further export is submitted.
\<close>

theorem isExporting_latched:
  assumes "step (StartExport t1 t2) s = Some s1" and "run es s1 = Some s'"
  shows "isExporting s' \<and> step (StartExport t3 t4) s' = None \<and>
         length (exportRequests s') = Suc (length (exportRequests s))"
proof -
  from assms(1) have "isExporting s1" "length (exportRequests s1) = Suc (length (exportRequests s))"
    by (auto simp: handleExport_def Let_def split: if_splits)
  with run_latch [OF _ assms(2)] show ?thesis by simp
qed

theorem isExporting_latched_witness:
  "\<exists>s1 s'. step (StartExport 7 8) (DataExport_init\<lparr>isOpen := True\<rparr>) = Some s1 \<and>
     run [OpenModal, TimerFired 0 1 2, ParameterToggle ''ph'', CloseModal, OpenModal] s1 = Some s' \<and>
     isExporting s' \<and> isOpen s' \<and> selectedParameters s' \<noteq> [] \<and>
     step (StartExport 9 9) s' = None \<and> length (exportRequests s') = 1"
proof -
  have "\<exists>s1. step (StartExport 7 8) (DataExport_init\<lparr>isOpen := True\<rparr>) = Some s1 \<and>
     (\<exists>s'. run [OpenModal, TimerFired 0 1 2, ParameterToggle ''ph'', CloseModal, OpenModal] s1 = Some s' \<and>
        isOpen s' \<and> selectedParameters s' \<noteq> [])"
    by (simp add: DataExport_init_def handleExport_def resume_def setProgress_def
        handleParameterToggle_def parameter_ids_def)
  then obtain s1 s' where a: "step (StartExport 7 8) (DataExport_init\<lparr>isOpen := True\<rparr>) = Some s1"
    and b: "run [OpenModal, TimerFired 0 1 2, ParameterToggle ''ph'', CloseModal, OpenModal] s1 = Some s'"
    and c: "isOpen s'" "selectedParameters s' \<noteq> []"
    by blast
  from isExporting_latched [OF a b, of 9 9]
  have "isExporting s'" "step (StartExport 9 9) s' = None" "length (exportRequests s') = 1"
    by (simp_all add: DataExport_init_def)
  with a b c show ?thesis by blast
qed

text \<open>
  Claim C5. With no parameter selected, \<open>handleExport\<close> ends at once with the error toast
  "Please select at least one parameter" (the code's way of rejecting the request; it
  throws nothing) and returns the state it was given: the job list and every other cell
  are unchanged, no request is created and no \<open>simulateExport\<close> call is started. The
  Start Export button is disabled in such a state as well.
\<close>

theorem handleExport_rejects_empty:
  assumes "selectedParameters s = []"
  shows "handleExport t_id t_created s =
           ([ToastError (JStr ''Please select at least one parameter'')], s) \<and>
         step (StartExport t_id t_created) s = None"
  using assms by (simp add: handleExport_def)

theorem handleExport_rejects_empty_witness:
  "selectedParameters (DataExport_init\<lparr>selectedParameters := [], isOpen := True\<rparr>) = [] \<and>
   handleExport 7 8 (DataExport_init\<lparr>selectedParameters := [], isOpen := True\<rparr>) =
     ([ToastError (JStr ''Please select at least one parameter'')],
      DataExport_init\<lparr>selectedParameters := [], isOpen := True\<rparr>)"
  using handleExport_rejects_empty [of "DataExport_init\<lparr>selectedParameters := [], isOpen := True\<rparr>" 7 8]
  by simp



section \<open>The feed client: history, counters, connections\<close>

lemma handleRealtimeUpdate_updates:
  assumes "data \<noteq> JNull"
  shows "\<exists>fx s' u. handleRealtimeUpdate a b c data s = Inr (fx, s') \<and>
           upd_id u = ''update_'' @ string_of_nat a \<and> timestamp u = b \<and>
           upd_data u = get_prop data ''data'' \<and>
           updates s' = take 50 (u # updates s) \<and> lastUpdate s' = c \<and>
           isConnected s' = isConnected s \<and> sockets s' = sockets s \<and> timers s' = timers s"
  using assms by (simp add: handleRealtimeUpdate_def Let_def split: option.splits)

lemma take_50_Cons: "take 50 (u # xs) = u # take 49 xs"
  by (simp add: take_Cons')

lemma take_49_butlast: "length xs = 50 \<Longrightarrow> take 49 xs = butlast xs"
  by (simp add: butlast_conv_take)

lemma ws_onmessage_updates_le:
  "length (updates s) \<le> 50 \<Longrightarrow> length (updates (snd (ws_onmessage parse a b c raw s))) \<le> 50"
  by (simp add: ws_onmessage_def handleRealtimeUpdate_def Let_def split: option.splits sum.splits)

lemma feed_step_updates_le:
  assumes "feed_step parse e s = Some s'" and "length (updates s) \<le> 50"
  shows "length (updates s') \<le> 50"
proof (cases e)
  case (WsMessage i a b c raw)
  with assms ws_onmessage_updates_le [OF assms(2), of parse a b c raw] show ?thesis
    by (auto split: if_splits)
qed (use assms in \<open>auto simp: connectWebSocket_def ws_onopen_def ws_onclose_def ws_onerror_def
      cleanup_def Let_def split: if_splits option.splits\<close>)

lemma feed_run_updates_le:
  "feed_run parse es s = Some s' \<Longrightarrow> length (updates s) \<le> 50 \<Longrightarrow> length (updates s') \<le> 50"
proof (induction es arbitrary: s)
  case Nil
  then show ?case by simp
next
  case (Cons e es)
  from Cons.prems(1) obtain s1 where s1: "feed_step parse e s = Some s1" "feed_run parse es s1 = Some s'"
    by (auto split: option.splits)
  from feed_step_updates_le [OF s1(1) Cons.prems(2)] Cons.IH [OF s1(2)]
  show ?case by simp
qed

lemma feed_run_append:
  "feed_run parse (es @ es') s =
     (case feed_run parse es s of None \<Rightarrow> None | Some s1 \<Rightarrow> feed_run parse es' s1)"
  by (induction es arbitrary: s) (auto simp del: feed_step.simps split: option.splits)

text \<open>A message that parses to a value other than \<open>null\<close> puts one update in front.\<close>

lemma ws_onmessage_wellformed:
  assumes "parse raw = Some data" and "data \<noteq> JNull"
  shows "\<exists>u. upd_id u = ''update_'' @ string_of_nat a \<and> timestamp u = b \<and>
           updates (snd (ws_onmessage parse a b c raw s)) = take 50 (u # updates s) \<and>
           sockets (snd (ws_onmessage parse a b c raw s)) = sockets s"
proof -
  from handleRealtimeUpdate_updates [OF assms(2), of a b c s]
  obtain fx s' u where h: "handleRealtimeUpdate a b c data s = Inr (fx, s')"
    "upd_id u = ''update_'' @ string_of_nat a" "timestamp u = b"
    "updates s' = take 50 (u # updates s)" "sockets s' = sockets s"
    by blast
  from assms(1) h(1) have "snd (ws_onmessage parse a b c raw s) = s'"
    by (simp add: ws_onmessage_def)
  with h show ?thesis by blast
qed

lemma feed_run_messages:
  assumes "parse raw = Some data" and "data \<noteq> JNull"
  shows "i < length (sockets s) \<Longrightarrow> sockets s ! i = OPEN \<Longrightarrow> length (updates s) \<le> 50 \<Longrightarrow>
     \<exists>s'. feed_run parse (replicate n (WsMessage i a b c raw)) s = Some s' \<and>
          length (updates s') = min 50 (length (updates s) + n)"
proof (induction n arbitrary: s)
  case 0
  then show ?case by simp
next
  case (Suc n)
  let ?s1 = "snd (ws_onmessage parse a b c raw s)"
  from ws_onmessage_wellformed [of parse raw data a b c s] assms
  obtain u where u: "updates ?s1 = take 50 (u # updates s)" "sockets ?s1 = sockets s"
    by blast
  from Suc.prems have st: "feed_step parse (WsMessage i a b c raw) s = Some ?s1"
    by simp
  from Suc.prems u have "i < length (sockets ?s1)" "sockets ?s1 ! i = OPEN"
    "length (updates ?s1) \<le> 50"
    by simp_all
  from Suc.IH [OF this]
  obtain s' where s': "feed_run parse (replicate n (WsMessage i a b c raw)) ?s1 = Some s'"
    "length (updates s') = min 50 (length (updates ?s1) + n)"
    by blast
  from st s'(1) have "feed_run parse (replicate (Suc n) (WsMessage i a b c raw)) s = Some s'"
    by (simp del: feed_step.simps)
  moreover from s'(2) u(1) Suc.prems(3) have "length (updates s') = min 50 (length (updates s) + Suc n)"
    by simp
  ultimately show ?case by blast
qed

lemma map_of_JsonVal:
  "map_of (map (\<lambda>(k, x). (k, JsonVal x)) xs) k = map_option JsonVal (map_of xs k)"
  by (induction xs) auto

lemma merge_stats_obj:
  "merge_stats prev (JObj kvs) k =
     (case map_of (rev kvs) k of Some v \<Rightarrow> Some (JsonVal v) | None \<Rightarrow> prev k)"
proof -
  have "rev (map (\<lambda>(k, x). (k, JsonVal x)) kvs) = map (\<lambda>(k, x). (k, JsonVal x)) (rev kvs)"
    by (simp add: rev_map)
  then show ?thesis
    by (simp add: merge_stats_def map_add_def map_of_JsonVal split: option.splits)
qed

section \<open>Properties of the feed client\<close>

text \<open>
  Claim C7. In every state the feed client reaches, whatever the events and messages,
  the history holds at most 50 updates. A message that parses to a value other than
  \<open>null\<close> puts its update in front of the first 49 entries of the old history; when the
  old history holds 50 entries this is the old history without its last entry, and the
  length stays 50.
\<close>

theorem history_bounded:
  assumes "feed_run parse es (RealTimeUpdates_init t_last t_sync) = Some s"
  shows "length (updates s) \<le> 50 \<and>
    (\<forall>raw data a b c. parse raw = Some data \<and> data \<noteq> JNull \<longrightarrow>
       (\<exists>u. upd_id u = ''update_'' @ string_of_nat a \<and> timestamp u = b \<and>
            updates (snd (ws_onmessage parse a b c raw s)) = u # take 49 (updates s) \<and>
            (length (updates s) = 50 \<longrightarrow>
               updates (snd (ws_onmessage parse a b c raw s)) = u # butlast (updates s)) \<and>
            length (updates (snd (ws_onmessage parse a b c raw s))) \<le> 50))"
proof (intro conjI allI impI)
  show le: "length (updates s) \<le> 50"
    using feed_run_updates_le [OF assms] by (simp add: RealTimeUpdates_init_def)
  fix raw data a b c
  assume p: "parse raw = Some data \<and> data \<noteq> JNull"
  then have "parse raw = Some data" "data \<noteq> JNull" by simp_all
  from ws_onmessage_wellformed [of parse raw data a b c s] this
  obtain u where h: "upd_id u = ''update_'' @ string_of_nat a" "timestamp u = b"
    "updates (snd (ws_onmessage parse a b c raw s)) = take 50 (u # updates s)"
    by blast
  with le
  show "\<exists>u. upd_id u = ''update_'' @ string_of_nat a \<and> timestamp u = b \<and>
            updates (snd (ws_onmessage parse a b c raw s)) = u # take 49 (updates s) \<and>
            (length (updates s) = 50 \<longrightarrow>
               updates (snd (ws_onmessage parse a b c raw s)) = u # butlast (updates s)) \<and>
            length (updates (snd (ws_onmessage parse a b c raw s))) \<le> 50"
    by (auto simp: take_50_Cons take_49_butlast intro!: exI [of _ u])
qed

theorem history_bounded_witness:
  "\<exists>s u. feed_run (\<lambda>raw. if raw = ''{}'' then Some (JObj []) else None)
       ([Mount False, WsOpen 0] @ replicate 50 (WsMessage 0 1 2 3 ''{}''))
       (RealTimeUpdates_init 0 0) = Some s \<and>
     length (updates s) = 50 \<and> upd_id u = ''update_4'' \<and>
     updates (snd (ws_onmessage (\<lambda>raw. if raw = ''{}'' then Some (JObj []) else None) 4 5 6 ''{}'' s)) =
       u # butlast (updates s)"
proof -
  let ?parse = "\<lambda>raw. if raw = ''{}'' then Some (JObj []) else None"
  let ?es = "[Mount False, WsOpen 0] @ replicate 50 (WsMessage 0 1 2 3 ''{}'')"
  have "\<exists>s0. feed_run ?parse [Mount False, WsOpen 0] (RealTimeUpdates_init 0 0) = Some s0 \<and>
      0 < length (sockets s0) \<and> sockets s0 ! 0 = OPEN \<and> updates s0 = []"
    by (simp add: RealTimeUpdates_init_def connectWebSocket_def ws_onopen_def)
  then obtain s0 where s0: "feed_run ?parse [Mount False, WsOpen 0] (RealTimeUpdates_init 0 0) = Some s0"
    "0 < length (sockets s0)" "sockets s0 ! 0 = OPEN" "updates s0 = []"
    by blast
  have p: "?parse ''{}'' = Some (JObj [])" "JObj [] \<noteq> JNull" by simp_all
  from s0(4) have "length (updates s0) \<le> 50" by simp
  from feed_run_messages [of ?parse "''{}''" "JObj []" 0 s0 50 1 2 3, OF p s0(2,3) this] s0(4)
  obtain s where s: "feed_run ?parse (replicate 50 (WsMessage 0 1 2 3 ''{}'')) s0 = Some s"
    "length (updates s) = 50"
    by auto
  from s0(1) s(1) have run: "feed_run ?parse ?es (RealTimeUpdates_init 0 0) = Some s"
    by (simp only: feed_run_append option.case)
  note hb = history_bounded [OF run, THEN conjunct2, rule_format, of "''{}''" "JObj []" 4 5 6]
  from hb p s(2) obtain u where "upd_id u = ''update_'' @ string_of_nat 4"
    "updates (snd (ws_onmessage ?parse 4 5 6 ''{}'' s)) = u # butlast (updates s)"
    by blast
  then have "upd_id u = ''update_4''"
    "updates (snd (ws_onmessage ?parse 4 5 6 ''{}'' s)) = u # butlast (updates s)"
    by (simp_all add: string_of_nat.simps digit_char_def)
  with run s(2) show ?thesis by blast
qed

text \<open>
  Claim C8. For a payload on which \<open>JSON.parse\<close> throws, \<open>ws.onmessage\<close> catches the
  exception, logs it and returns the state it was given: history, counters, connection
  state and everything else are unchanged and no update is created. The handler has no
  exceptional result; as an event, such a message leaves an open socket's component
  state as it is.
\<close>

theorem malformed_message_ignored:
  assumes "parse raw = None"
  shows "ws_onmessage parse a b c raw s = ([ConsoleError ''Error parsing WebSocket message:''], s) \<and>
     feed_step parse (WsMessage i a b c raw) s =
       (if i < length (sockets s) \<and> sockets s ! i = OPEN then Some s else None)"
  using assms by (simp add: ws_onmessage_def)

theorem malformed_message_ignored_witness:
  "(\<lambda>raw. if raw = ''{}'' then Some (JObj []) else None) ''{oops'' = None \<and>
   ws_onmessage (\<lambda>raw. if raw = ''{}'' then Some (JObj []) else None) 1 2 3 ''{oops''
       (RealTimeUpdates_init 0 0) =
     ([ConsoleError ''Error parsing WebSocket message:''], RealTimeUpdates_init 0 0)"
  using malformed_message_ignored
    [of "\<lambda>raw. if raw = ''{}'' then Some (JObj []) else None" "''{oops''" 1 2 3 "RealTimeUpdates_init 0 0"]
  by simp

text \<open>
  Claim C9. When a message carries an object under \<open>stats\<close>, every counter the object
  names gets the object's value (the last one, should the text repeat a key) and every
  counter it does not name keeps its value. The witness is the example of the claim:
  \<open>{activeEntities: 10}\<close> applied to \<open>{activeEntities: 5, total: 20}\<close>.
\<close>

theorem stats_partial_update:
  assumes "parse raw = Some data" and "get_prop data ''stats'' = Some (JObj kvs)"
  shows "stats (snd (ws_onmessage parse a b c raw s)) k =
     (case map_of (rev kvs) k of Some v \<Rightarrow> Some (JsonVal v) | None \<Rightarrow> stats s k)"
proof -
  from assms(2) have "data \<noteq> JNull" by auto
  with assms show ?thesis
    by (simp add: ws_onmessage_def handleRealtimeUpdate_def Let_def merge_stats_obj)
qed

theorem stats_partial_update_witness:
  "stats (snd (ws_onmessage (\<lambda>raw. Some (JObj [(''stats'', JObj [(''activeEntities'', JNum 10)])]))
        1 2 3 ''m''
        ((RealTimeUpdates_init 0 0)\<lparr>stats :=
            [''activeEntities'' \<mapsto> JsonVal (JNum 5), ''total'' \<mapsto> JsonVal (JNum 20)]\<rparr>)))
     ''activeEntities'' = Some (JsonVal (JNum 10)) \<and>
   stats (snd (ws_onmessage (\<lambda>raw. Some (JObj [(''stats'', JObj [(''activeEntities'', JNum 10)])]))
        1 2 3 ''m''
        ((RealTimeUpdates_init 0 0)\<lparr>stats :=
            [''activeEntities'' \<mapsto> JsonVal (JNum 5), ''total'' \<mapsto> JsonVal (JNum 20)]\<rparr>)))
     ''total'' = Some (JsonVal (JNum 20))"
proof -
  let ?parse = "\<lambda>raw::string. Some (JObj [(''stats'', JObj [(''activeEntities'', JNum 10)])])"
  let ?s = "(RealTimeUpdates_init 0 0)\<lparr>stats :=
            [''activeEntities'' \<mapsto> JsonVal (JNum 5), ''total'' \<mapsto> JsonVal (JNum 20)]\<rparr>"
  have p: "?parse ''m'' = Some (JObj [(''stats'', JObj [(''activeEntities'', JNum 10)])])"
    by simp
  have g: "get_prop (JObj [(''stats'', JObj [(''activeEntities'', JNum 10)])]) ''stats'' =
      Some (JObj [(''activeEntities'', JNum 10)])"
    by simp
  from stats_partial_update [of ?parse "''m''" _ _ 1 2 3 ?s "''activeEntities''", OF p g]
       stats_partial_update [of ?parse "''m''" _ _ 1 2 3 ?s "''total''", OF p g]
  show ?thesis by simp
qed

text \<open>
  Claim C3, as stated, fails: \<open>connectWebSocket\<close> tests nothing before it constructs a
  socket. In the state after mounting and the socket's \<open>open\<close> event (connected, one open
  socket) another call constructs a second socket and moves \<open>wsRef\<close> to it.
\<close>

theorem connect_not_idempotent:
  "\<exists>s. feed_run (\<lambda>r. None) [Mount False, WsOpen 0] (RealTimeUpdates_init 0 0) = Some s \<and>
     isConnected s \<and> sockets s = [OPEN] \<and> wsRef s = Some 0 \<and>
     sockets (snd (connectWebSocket False s)) = [OPEN, CONNECTING] \<and>
     wsRef (snd (connectWebSocket False s)) = Some 1 \<and>
     snd (connectWebSocket False s) \<noteq> s"
  by (simp add: RealTimeUpdates_init_def connectWebSocket_def ws_onopen_def)

text \<open>
  Claim C3, amended. Every call of \<open>connectWebSocket\<close> whose constructor does not throw
  opens one more connection, in whatever state it is made: after \<open>n\<close> calls there are
  \<open>n\<close> more sockets, all connecting, behind the earlier ones, which are left as they
  were; \<open>wsRef\<close> names the newest; and \<open>isConnected\<close>, the history, the counters and the
  pending timeouts are what they were before the calls.
\<close>

theorem connect_always_opens:
  "sockets (((snd \<circ> connectWebSocket False) ^^ n) s) = sockets s @ replicate n CONNECTING \<and>
   (0 < n \<longrightarrow> wsRef (((snd \<circ> connectWebSocket False) ^^ n) s) = Some (length (sockets s) + n - 1)) \<and>
   isConnected (((snd \<circ> connectWebSocket False) ^^ n) s) = isConnected s \<and>
   updates (((snd \<circ> connectWebSocket False) ^^ n) s) = updates s \<and>
   stats (((snd \<circ> connectWebSocket False) ^^ n) s) = stats s \<and>
   timers (((snd \<circ> connectWebSocket False) ^^ n) s) = timers s"
proof (induction n)
  case 0
  show ?case by simp
next
  case (Suc n)
  then show ?case
    by (simp add: connectWebSocket_def replicate_append_same)
qed

theorem connect_always_opens_witness:
  "\<exists>s. feed_run (\<lambda>r. None) [Mount False, WsOpen 0] (RealTimeUpdates_init 0 0) = Some s \<and>
     sockets s = [OPEN] \<and> isConnected s \<and>
     sockets (((snd \<circ> connectWebSocket False) ^^ 2) s) = [OPEN, CONNECTING, CONNECTING] \<and>
     wsRef (((snd \<circ> connectWebSocket False) ^^ 2) s) = Some 2 \<and>
     isConnected (((snd \<circ> connectWebSocket False) ^^ 2) s)"
proof -
  have "\<exists>s. feed_run (\<lambda>r. None) [Mount False, WsOpen 0] (RealTimeUpdates_init 0 0) = Some s \<and>
     sockets s = [OPEN] \<and> isConnected s"
    by (simp add: RealTimeUpdates_init_def connectWebSocket_def ws_onopen_def)
  then obtain s where s: "feed_run (\<lambda>r. None) [Mount False, WsOpen 0] (RealTimeUpdates_init 0 0) = Some s"
    "sockets s = [OPEN]" "isConnected s"
    by blast
  have "replicate 2 CONNECTING = [CONNECTING, CONNECTING]"
    by (simp add: numeral_2_eq_2)
  with connect_always_opens [of 2 s] s(2,3)
  have "sockets (((snd \<circ> connectWebSocket False) ^^ 2) s) = [OPEN, CONNECTING, CONNECTING]"
    "wsRef (((snd \<circ> connectWebSocket False) ^^ 2) s) = Some 2"
    "isConnected (((snd \<circ> connectWebSocket False) ^^ 2) s)"
    by simp_all
  with s show ?thesis by blast
qed

text \<open>
  Claim C2 does not hold of the code. The cleanup calls \<open>close()\<close> on the active socket
  and clears the timeout stored at that moment, but the socket keeps its \<open>onclose\<close>
  handler: when the browser then delivers the close event, the handler arms a new
  timeout, and when that fires \<open>connectWebSocket\<close> constructs a new socket, after the
  unmount. The run below is mount, open, unmount, close event, timeout.
\<close>

theorem cleanup_then_reconnect:
  "\<exists>s1 s2 s3.
     feed_run (\<lambda>r. None) [Mount False, WsOpen 0, Unmount] (RealTimeUpdates_init 0 0) = Some s1 \<and>
     unmounted s1 \<and> sockets s1 = [CLOSING] \<and> timers s1 = [] \<and>
     feed_step (\<lambda>r. None) (WsClose 0) s1 = Some s2 \<and>
     sockets s2 = [CLOSED] \<and> timers s2 = [True] \<and>
     feed_step (\<lambda>r. None) (TimeoutFired 0 False) s2 = Some s3 \<and>
     unmounted s3 \<and> sockets s3 = [CLOSED, CONNECTING] \<and> wsRef s3 = Some 1"
  by (simp add: RealTimeUpdates_init_def connectWebSocket_def ws_onopen_def ws_onclose_def
      cleanup_def ws_close_def clearTimeout_def)

end
